theory Spec2Isabelle
  imports
    Complex_Main
    "HOL-Library.Sublist"
    "HOL-Library.Char_ord"
    "HOL-Library.List_Lexorder"
    "HOL-Library.Log_Nat"
begin

section \<open>JavaScript values\<close>

text \<open>
  The dashboard (\<^verbatim>\<open>src/App.jsx\<close>) is dynamically typed: a field of a parsed row is
  \<^verbatim>\<open>undefined\<close>, a string or a number, and the code reads fields through property
  access, compares them with \<^verbatim>\<open>===\<close> and adds them with \<^verbatim>\<open>+\<close>. The model keeps
  that: a value is a \<open>jsval\<close>, a number is an IEEE 754 binary64 value.

  A finite double is kept as the rational it denotes. The two zeros are identified
  (\<^verbatim>\<open>-0 === 0\<close> holds, and no modelled division has a zero divisor); every other double
  is represented exactly.
\<close>

datatype jsnum = NaN | PInf | NInf | Fin rat

datatype jsval = Undefined | Str string | Num jsnum

datatype js_error = TypeError

subsection \<open>Binary64 arithmetic\<close>

text \<open>
  \<open>fl q\<close> is the double nearest to the rational \<open>q\<close>, ties to the even significand:
  the significand has 53 bits, the least exponent is \<open>-1074\<close>, and a result of
  magnitude \<open>2 ^ 1024\<close> or more is an infinity.
\<close>

definition pow2 :: "int \<Rightarrow> rat" where
  "pow2 e = (if 0 \<le> e then 2 ^ nat e else 1 / 2 ^ nat (- e))"

definition rne :: "rat \<Rightarrow> int" where
  "rne x = (let f = \<lfloor>x\<rfloor>; d = x - of_int f in
     if d < 1 / 2 then f else if 1 / 2 < d then f + 1 else if even f then f else f + 1)"

definition ilog2 :: "rat \<Rightarrow> int" where
  "ilog2 a = (if 1 \<le> a then bitlen \<lfloor>a\<rfloor> - 1
     else let k = bitlen \<lfloor>1 / a\<rfloor> in if pow2 (1 - k) \<le> a then 1 - k else - k)"

definition overflow_threshold :: rat where
  "overflow_threshold = 2 ^ 1024"

definition fl :: "rat \<Rightarrow> jsnum" where
  "fl q = (if q = 0 then Fin 0 else
     let a = \<bar>q\<bar>; e = max (ilog2 a - 52) (- 1074);
         r = of_int (rne (a / pow2 e)) * pow2 e in
     if overflow_threshold \<le> r then (if 0 < q then PInf else NInf)
     else Fin (if 0 < q then r else - r))"

fun fadd :: "jsnum \<Rightarrow> jsnum \<Rightarrow> jsnum" where
  "fadd NaN _ = NaN"
| "fadd _ NaN = NaN"
| "fadd PInf NInf = NaN"
| "fadd NInf PInf = NaN"
| "fadd PInf _ = PInf"
| "fadd _ PInf = PInf"
| "fadd NInf _ = NInf"
| "fadd _ NInf = NInf"
| "fadd (Fin a) (Fin b) = fl (a + b)"

fun fmul :: "jsnum \<Rightarrow> jsnum \<Rightarrow> jsnum" where
  "fmul NaN _ = NaN"
| "fmul _ NaN = NaN"
| "fmul PInf PInf = PInf"
| "fmul PInf NInf = NInf"
| "fmul NInf PInf = NInf"
| "fmul NInf NInf = PInf"
| "fmul PInf (Fin b) = (if b = 0 then NaN else if 0 < b then PInf else NInf)"
| "fmul NInf (Fin b) = (if b = 0 then NaN else if 0 < b then NInf else PInf)"
| "fmul (Fin a) PInf = (if a = 0 then NaN else if 0 < a then PInf else NInf)"
| "fmul (Fin a) NInf = (if a = 0 then NaN else if 0 < a then NInf else PInf)"
| "fmul (Fin a) (Fin b) = fl (a * b)"

text \<open>
  Division. Every divisor in the program is an array length or a group counter that
  has been incremented, so the zero-divisor equations (where the sign of a zero
  would show) are never reached.
\<close>

fun fdiv :: "jsnum \<Rightarrow> jsnum \<Rightarrow> jsnum" where
  "fdiv NaN _ = NaN"
| "fdiv _ NaN = NaN"
| "fdiv PInf (Fin b) = (if 0 \<le> b then PInf else NInf)"
| "fdiv NInf (Fin b) = (if 0 \<le> b then NInf else PInf)"
| "fdiv (Fin a) (Fin b) =
     (if b = 0 then (if a = 0 then NaN else if 0 < a then PInf else NInf)
      else fl (a / b))"
| "fdiv (Fin a) _ = Fin 0"
| "fdiv _ _ = NaN"

text \<open>
  An array length (below \<open>2 ^ 32\<close>) or a counter of array elements as a number: such
  integers are doubles exactly.
\<close>

definition num_of_nat :: "nat \<Rightarrow> jsnum" where
  "num_of_nat n = Fin (of_nat n)"

subsection \<open>Strings\<close>

text \<open>
  Strings are lists of 8-bit characters, read as ASCII text: white space is the six
  ASCII white-space characters and \<^verbatim>\<open>toUpperCase\<close> maps \<^verbatim>\<open>a\<close>..\<^verbatim>\<open>z\<close>.
\<close>

definition is_space :: "char \<Rightarrow> bool" where
  "is_space c \<longleftrightarrow> of_char c \<in> {9, 10, 11, 12, 13, 32 :: nat}"

definition trimStart :: "string \<Rightarrow> string" where
  "trimStart s = dropWhile is_space s"

definition trim :: "string \<Rightarrow> string" where
  "trim s = rev (dropWhile is_space (rev (dropWhile is_space s)))"

text \<open>\<^verbatim>\<open>s.split(c)\<close> for a one-character separator: never empty, \<^verbatim>\<open>"".split(c)\<close> is \<^verbatim>\<open>[""]\<close>.\<close>

fun split_on :: "char \<Rightarrow> string \<Rightarrow> string list" where
  "split_on c [] = [[]]"
| "split_on c (x # xs) =
     (if x = c then [] # split_on c xs
      else (case split_on c xs of [] \<Rightarrow> [[x]] | w # ws \<Rightarrow> (x # w) # ws))"

definition toUpperCase_char :: "char \<Rightarrow> char" where
  "toUpperCase_char c =
     (if CHR ''a'' \<le> c \<and> c \<le> CHR ''z'' then char_of (of_char c - (32 :: nat)) else c)"

definition toUpperCase :: "string \<Rightarrow> string" where
  "toUpperCase s = map toUpperCase_char s"

subsection \<open>Numeric strings\<close>

text \<open>
  \<^verbatim>\<open>StrDecimalLiteral\<close> of ECMA-262: an optional sign, then \<^verbatim>\<open>Infinity\<close> or decimal
  digits with an optional fraction and an optional exponent. \<open>scan_decimal\<close> reads the
  longest prefix of that form and returns its value as a double, with the rest.
\<close>

definition is_digit :: "char \<Rightarrow> bool" where
  "is_digit c \<longleftrightarrow> CHR ''0'' \<le> c \<and> c \<le> CHR ''9''"

definition digit_val :: "char \<Rightarrow> int" where
  "digit_val c = of_char c - 48"

definition digits_val :: "string \<Rightarrow> int" where
  "digits_val ds = foldl (\<lambda>n c. 10 * n + digit_val c) 0 ds"

definition pow10 :: "int \<Rightarrow> rat" where
  "pow10 e = (if 0 \<le> e then 10 ^ nat e else 1 / 10 ^ nat (- e))"

datatype mv = MInf | MVal rat

definition scan_exponent :: "string \<Rightarrow> (int \<times> string) option" where
  "scan_exponent s =
     (case s of
        [] \<Rightarrow> None
      | c # r \<Rightarrow>
          if c = CHR ''e'' \<or> c = CHR ''E'' then
            (let neg = (case r of [] \<Rightarrow> False | d # _ \<Rightarrow> d = CHR ''-'');
                 r1 = (case r of [] \<Rightarrow> r
                       | d # t \<Rightarrow> if d = CHR ''+'' \<or> d = CHR ''-'' then t else r);
                 ds = takeWhile is_digit r1
             in if ds = [] then None
                else Some (if neg then - digits_val ds else digits_val ds,
                           dropWhile is_digit r1))
          else None)"

definition with_exponent :: "rat \<Rightarrow> string \<Rightarrow> (mv \<times> string) option" where
  "with_exponent m s =
     (case scan_exponent s of
        None \<Rightarrow> Some (MVal m, s)
      | Some (x, r) \<Rightarrow> Some (MVal (m * pow10 x), r))"

definition scan_unsigned :: "string \<Rightarrow> (mv \<times> string) option" where
  "scan_unsigned s =
     (if prefix ''Infinity'' s then Some (MInf, drop 8 s)
      else
        let ip = takeWhile is_digit s; r1 = dropWhile is_digit s in
        (case r1 of
           [] \<Rightarrow> if ip = [] then None else Some (MVal (of_int (digits_val ip)), [])
         | c # r2 \<Rightarrow>
             if c = CHR ''.'' then
               (let fp = takeWhile is_digit r2; r3 = dropWhile is_digit r2 in
                if ip = [] \<and> fp = [] then None
                else with_exponent
                       (of_int (digits_val ip) + of_int (digits_val fp) / 10 ^ length fp) r3)
             else if ip = [] then None
             else with_exponent (of_int (digits_val ip)) r1))"

definition scan_decimal :: "string \<Rightarrow> (jsnum \<times> string) option" where
  "scan_decimal s =
     (let neg = (case s of [] \<Rightarrow> False | c # _ \<Rightarrow> c = CHR ''-'');
          s1 = (case s of [] \<Rightarrow> s
                | c # t \<Rightarrow> if c = CHR ''+'' \<or> c = CHR ''-'' then t else s)
      in case scan_unsigned s1 of
           None \<Rightarrow> None
         | Some (MInf, r) \<Rightarrow> Some (if neg then NInf else PInf, r)
         | Some (MVal q, r) \<Rightarrow> Some (fl (if neg then - q else q), r))"

text \<open>\<^verbatim>\<open>parseFloat\<close>: the longest decimal-literal prefix after leading white space.\<close>

definition parseFloat :: "string \<Rightarrow> jsnum" where
  "parseFloat s = (case scan_decimal (trimStart s) of None \<Rightarrow> NaN | Some (v, _) \<Rightarrow> v)"

text \<open>
  \<^verbatim>\<open>NonDecimalIntegerLiteral\<close>: \<^verbatim>\<open>0x\<close>, \<^verbatim>\<open>0o\<close> or \<^verbatim>\<open>0b\<close> (either case) and at least
  one digit of that base, no sign.
\<close>

definition base_digit :: "int \<Rightarrow> char \<Rightarrow> int option" where
  "base_digit b c =
     (let v = (if is_digit c then Some (digit_val c)
               else if CHR ''a'' \<le> c \<and> c \<le> CHR ''f'' then Some (of_char c - 87)
               else if CHR ''A'' \<le> c \<and> c \<le> CHR ''F'' then Some (of_char c - 55)
               else None)
      in case v of None \<Rightarrow> None | Some d \<Rightarrow> if d < b then Some d else None)"

definition base_val :: "int \<Rightarrow> string \<Rightarrow> int option" where
  "base_val b ds =
     (if ds \<noteq> [] \<and> list_all (\<lambda>c. base_digit b c \<noteq> None) ds
      then Some (foldl (\<lambda>n c. b * n + the (base_digit b c)) 0 ds) else None)"

definition scan_nondecimal :: "string \<Rightarrow> int option" where
  "scan_nondecimal s =
     (case s of
        z # p # ds \<Rightarrow>
          if z \<noteq> CHR ''0'' then None
          else if p = CHR ''x'' \<or> p = CHR ''X'' then base_val 16 ds
          else if p = CHR ''o'' \<or> p = CHR ''O'' then base_val 8 ds
          else if p = CHR ''b'' \<or> p = CHR ''B'' then base_val 2 ds
          else None
      | _ \<Rightarrow> None)"

text \<open>
  \<^verbatim>\<open>Number(s)\<close> on a string (\<^verbatim>\<open>StringToNumber\<close>): white space is trimmed, the empty
  string is \<open>0\<close>, and the whole rest must be one numeric literal.
\<close>

definition string_to_number :: "string \<Rightarrow> jsnum" where
  "string_to_number s =
     (let t = trim s in
      if t = [] then Fin 0
      else case scan_nondecimal t of
             Some n \<Rightarrow> fl (of_int n)
           | None \<Rightarrow>
               (case scan_decimal t of
                  None \<Rightarrow> NaN
                | Some (v, r) \<Rightarrow> if r = [] then v else NaN))"

subsection \<open>Coercions and operators\<close>

text \<open>
  \<^verbatim>\<open>Number::toString\<close> (the shortest decimal text that reads back as the same double)
  is a built-in of the language; the model takes it as the parameter \<open>nts\<close> wherever
  a number may have to become a string.
\<close>

fun to_string :: "(jsnum \<Rightarrow> string) \<Rightarrow> jsval \<Rightarrow> string" where
  "to_string nts Undefined = ''undefined''"
| "to_string nts (Str s) = s"
| "to_string nts (Num n) = nts n"

fun to_number :: "jsval \<Rightarrow> jsnum" where
  "to_number Undefined = NaN"
| "to_number (Str s) = string_to_number s"
| "to_number (Num n) = n"

fun truthy :: "jsval \<Rightarrow> bool" where
  "truthy Undefined = False"
| "truthy (Str s) = (s \<noteq> [])"
| "truthy (Num n) = (n \<noteq> NaN \<and> n \<noteq> Fin 0)"

definition isNaN :: "jsval \<Rightarrow> bool" where
  "isNaN v \<longleftrightarrow> to_number v = NaN"

text \<open>\<^verbatim>\<open>a + b\<close>: concatenation as soon as one operand is a string, else addition.\<close>

fun js_add :: "(jsnum \<Rightarrow> string) \<Rightarrow> jsval \<Rightarrow> jsval \<Rightarrow> jsval" where
  "js_add nts (Str s) b = Str (s @ to_string nts b)"
| "js_add nts a (Str t) = Str (to_string nts a @ t)"
| "js_add nts a b = Num (fadd (to_number a) (to_number b))"

definition js_div :: "jsval \<Rightarrow> jsval \<Rightarrow> jsnum" where
  "js_div a b = fdiv (to_number a) (to_number b)"

subsection \<open>Objects\<close>


text \<open>
  An object literal used as a dictionary: own properties only. Reading a property that
  the object does not own yields \<^verbatim>\<open>undefined\<close> (none of the names read by the code,
  \<^verbatim>\<open>region\<close>, \<^verbatim>\<open>smoker\<close>, \<^verbatim>\<open>sex\<close>, \<^verbatim>\<open>charges\<close>, is inherited from
  \<^verbatim>\<open>Object.prototype\<close>).
\<close>

type_synonym obj = "string \<rightharpoonup> jsval"

definition fld :: "obj \<Rightarrow> string \<Rightarrow> jsval" where
  "fld item k = (case item k of None \<Rightarrow> Undefined | Some v \<Rightarrow> v)"

text \<open>Strict equality \<^verbatim>\<open>===\<close>: no coercion, and \<^verbatim>\<open>NaN\<close> differs from itself.\<close>

fun strict_eq :: "jsval \<Rightarrow> jsval \<Rightarrow> bool" where
  "strict_eq (Num a) (Num b) = (a \<noteq> NaN \<and> a = b)"
| "strict_eq a b = (a = b)"

section \<open>Filter engine\<close>

text \<open>
  \<^verbatim>\<open>
  const filteredData = useMemo(() => {
    return data.filter(item => {
      return (filters.region === 'all' || item.region === filters.region) &&
        (filters.smoker === 'all' || item.smoker === filters.smoker) &&
        (filters.sex === 'all' || item.sex === filters.sex);
    });
  }, [data, filters]);
  \<close>
  The selection object is a dictionary like a row; the interface only ever stores the
  strings of the drop-down options in it.
\<close>

definition keep_item :: "obj \<Rightarrow> obj \<Rightarrow> bool" where
  "keep_item filters item \<longleftrightarrow>
     (strict_eq (fld filters ''region'') (Str ''all'') \<or>
        strict_eq (fld item ''region'') (fld filters ''region'')) \<and>
     (strict_eq (fld filters ''smoker'') (Str ''all'') \<or>
        strict_eq (fld item ''smoker'') (fld filters ''smoker'')) \<and>
     (strict_eq (fld filters ''sex'') (Str ''all'') \<or>
        strict_eq (fld item ''sex'') (fld filters ''sex''))"

definition filteredData :: "obj list \<Rightarrow> obj \<Rightarrow> obj list" where
  "filteredData data filters = filter (keep_item filters) data"

section \<open>Parser\<close>

text \<open>
  \<^verbatim>\<open>
  const lines = text.trim().split('\n');
  const headers = lines[0].split(',').map(h => h.trim());
  const parsed = lines.slice(1).map(line => {
    if (!line.trim()) return null;
    const values = line.split(',');
    const entry = {};
    headers.forEach((h, i) => {
      let val = values[i]?.trim();
      if (val && !isNaN(val)) val = parseFloat(val);
      entry[h] = val;
    });
    return entry;
  }).filter(Boolean);
  \<close>
  \<open>coerce\<close> is the body of the inner callback for one cell: \<open>None\<close> is a cell the
  line does not have (\<^verbatim>\<open>values[i]\<close> is \<^verbatim>\<open>undefined\<close>).
\<close>

definition coerce :: "string option \<Rightarrow> jsval" where
  "coerce cell =
     (case cell of
        None \<Rightarrow> Undefined
      | Some raw \<Rightarrow>
          let val = trim raw in
          if val \<noteq> [] \<and> \<not> isNaN (Str val) then Num (parseFloat val) else Str val)"

text \<open>
  \<^verbatim>\<open>entry[h] = val\<close>. The name \<^verbatim>\<open>__proto__\<close> is the inherited accessor, whose
  setter ignores a value that is not an object; every other name becomes an own property.
\<close>

definition set_prop :: "obj \<Rightarrow> string \<Rightarrow> jsval \<Rightarrow> obj" where
  "set_prop entry h v = (if h = ''__proto__'' then entry else entry(h \<mapsto> v))"

definition cell_at :: "string list \<Rightarrow> nat \<Rightarrow> string option" where
  "cell_at values i = (if i < length values then Some (values ! i) else None)"

fun fill_entry :: "string list \<Rightarrow> nat \<Rightarrow> string list \<Rightarrow> obj \<Rightarrow> obj" where
  "fill_entry [] i values entry = entry"
| "fill_entry (h # hs) i values entry =
     fill_entry hs (Suc i) values (set_prop entry h (coerce (cell_at values i)))"

definition parse_line :: "string list \<Rightarrow> string \<Rightarrow> obj option" where
  "parse_line headers line =
     (if trim line = [] then None
      else Some (fill_entry headers 0 (split_on CHR '','' line) Map.empty))"

definition parse_csv :: "string \<Rightarrow> obj list" where
  "parse_csv text =
     (case split_on (CHR 0x0A) (trim text) of
        [] \<Rightarrow> []
      | l0 # rest \<Rightarrow>
          let headers = map trim (split_on CHR '','' l0)
          in List.map_filter (parse_line headers) rest)"

section \<open>Application state and loading\<close>

text \<open>
  \<^verbatim>\<open>
  const [data, setData] = useState([]);
  const [loading, setLoading] = useState(true);
  const [filters, setFilters] = useState({ region: 'all', smoker: 'all', sex: 'all' });

  fetch('/medical-charges.csv')
    .then(response => response.text())
    .then(text => { ...; setData(parsed); setLoading(false); })
    .catch(err => console.error("Failed to load data", err));
  \<close>
  The promise chain settles once: fulfilled with the text of the resource, or rejected
  (by \<^verbatim>\<open>fetch\<close> or by \<^verbatim>\<open>response.text()\<close>) with a reason. The parsing callback has no
  failing operation. \<open>console\<close> is what \<^verbatim>\<open>console.error\<close> has received.
\<close>

record app_state =
  data :: "obj list"
  loading :: bool
  filters :: obj
  console :: "(string \<times> string) list"

definition initial_state :: app_state where
  "initial_state =
     \<lparr>data = [], loading = True,
      filters = [''region'' \<mapsto> Str ''all'', ''smoker'' \<mapsto> Str ''all'', ''sex'' \<mapsto> Str ''all''],
      console = []\<rparr>"

datatype fetch_outcome = Fulfilled string | Rejected string

fun on_settled :: "fetch_outcome \<Rightarrow> app_state \<Rightarrow> app_state" where
  "on_settled (Fulfilled text) st = st\<lparr>data := parse_csv text, loading := False\<rparr>"
| "on_settled (Rejected err) st = st\<lparr>console := console st @ [(''Failed to load data'', err)]\<rparr>"

text \<open>\<^verbatim>\<open>setFilters(prev => ({ ...prev, [key]: value }))\<close>\<close>

definition handleFilterChange :: "string \<Rightarrow> jsval \<Rightarrow> app_state \<Rightarrow> app_state" where
  "handleFilterChange key v st = st\<lparr>filters := (filters st)(key \<mapsto> v)\<rparr>"

section \<open>Aggregator\<close>

text \<open>
  \<^verbatim>\<open>
  if (filteredData.length === 0) return { count: 0, avgCharge: 0, smokerPct: 0 };
  const totalCharges = filteredData.reduce((sum, item) => sum + item.charges, 0);
  const smokers = filteredData.filter(item => item.smoker === 'yes').length;
  return {
    count: filteredData.length,
    avgCharge: totalCharges / filteredData.length,
    smokerPct: (smokers / filteredData.length) * 100
  };
  \<close>
\<close>

record stats_rec =
  count :: jsnum
  avgCharge :: jsnum
  smokerPct :: jsnum

definition stats :: "(jsnum \<Rightarrow> string) \<Rightarrow> obj list \<Rightarrow> stats_rec" where
  "stats nts filtered =
     (if length filtered = 0 then \<lparr>count = Fin 0, avgCharge = Fin 0, smokerPct = Fin 0\<rparr>
      else
        let totalCharges = foldl (\<lambda>sum item. js_add nts sum (fld item ''charges'')) (Num (Fin 0)) filtered;
            smokers = length (filter (\<lambda>item. strict_eq (fld item ''smoker'') (Str ''yes'')) filtered)
        in \<lparr>count = num_of_nat (length filtered),
            avgCharge = js_div totalCharges (Num (num_of_nat (length filtered))),
            smokerPct = fmul (fdiv (num_of_nat smokers) (num_of_nat (length filtered))) (Fin 100)\<rparr>)"

subsection \<open>Regional grouping\<close>

text \<open>
  \<^verbatim>\<open>
  const groups = {};
  filteredData.forEach(item => {
    if (!groups[item.region]) groups[item.region] = { region: item.region, total: 0, count: 0 };
    groups[item.region].total += item.charges;
    groups[item.region].count += 1;
  });
  return Object.values(groups).map(g => ({
    name: g.region.charAt(0).toUpperCase() + g.region.slice(1),
    avgCharge: g.total / g.count
  }));
  \<close>
  \<^verbatim>\<open>groups\<close> is an ordinary object, so \<^verbatim>\<open>groups[k]\<close> also finds what
  \<^verbatim>\<open>Object.prototype\<close> provides. The own properties are kept as an association list in
  creation order. For a name that \<^verbatim>\<open>Object.prototype\<close> provides the lookup is a
  function (or, for \<^verbatim>\<open>__proto__\<close>, the prototype itself): it is truthy, no group is
  created, and the two updates land on that inherited object. The only such update that
  a later lookup can see is \<^verbatim>\<open>Object.prototype.total\<close>, written through
  \<^verbatim>\<open>__proto__\<close>; the state carries it as \<open>ptotal\<close>. When it has become a non-empty
  string, \<^verbatim>\<open>groups["total"]\<close> is that string, and the update of a property of a string
  raises \<^verbatim>\<open>TypeError\<close> (module code is strict).

  \<^verbatim>\<open>Object.prototype\<close> is shared by all runs of the memo: what one recomputation writes
  there, the next one finds. A run therefore takes the value of
  \<^verbatim>\<open>Object.prototype.total\<close> it starts from as the argument \<open>proto_total\<close>
  (\<^verbatim>\<open>undefined\<close> on a fresh page), and \<open>prototype_after\<close> is the value it leaves behind.

  The counter of a group is a natural number: a double counts exactly up to \<open>2 ^ 53\<close>,
  far beyond the length of an array.
\<close>

record group =
  g_region :: jsval
  g_total :: jsval
  g_count :: nat

definition object_prototype_keys :: "string list" where
  "object_prototype_keys =
     [''constructor'', ''__defineGetter__'', ''__defineSetter__'', ''hasOwnProperty'',
      ''__lookupGetter__'', ''__lookupSetter__'', ''isPrototypeOf'', ''propertyIsEnumerable'',
      ''toString'', ''valueOf'', ''__proto__'', ''toLocaleString'']"

record groups_state =
  own :: "(string \<times> group) list"
  ptotal :: jsval

definition update_group :: "string \<Rightarrow> (group \<Rightarrow> group) \<Rightarrow> (string \<times> group) list \<Rightarrow> (string \<times> group) list" where
  "update_group k f gs = map (\<lambda>(k', g). if k' = k then (k', f g) else (k', g)) gs"

definition add_item :: "(jsnum \<Rightarrow> string) \<Rightarrow> obj \<Rightarrow> groups_state \<Rightarrow> js_error + groups_state" where
  "add_item nts item st =
     (let k = to_string nts (fld item ''region''); c = fld item ''charges'' in
      case map_of (own st) k of
        Some g \<Rightarrow>
          Inr (st\<lparr>own := update_group k
                 (\<lambda>g. g\<lparr>g_total := js_add nts (g_total g) c, g_count := Suc (g_count g)\<rparr>) (own st)\<rparr>)
      | None \<Rightarrow>
          if k = ''__proto__'' then Inr (st\<lparr>ptotal := js_add nts (ptotal st) c\<rparr>)
          else if k \<in> set object_prototype_keys then Inr st
          else if k = ''total'' \<and> truthy (ptotal st) then Inl TypeError
          else Inr (st\<lparr>own := own st @
                 [(k, \<lparr>g_region = fld item ''region'',
                       g_total = js_add nts (Num (Fin 0)) c, g_count = Suc 0\<rparr>)]\<rparr>))"

fun forEach_items :: "(jsnum \<Rightarrow> string) \<Rightarrow> obj list \<Rightarrow> groups_state \<Rightarrow> js_error + groups_state" where
  "forEach_items nts [] st = Inr st"
| "forEach_items nts (item # items) st =
     (case add_item nts item st of
        Inl e \<Rightarrow> Inl e
      | Inr st' \<Rightarrow> forEach_items nts items st')"

text \<open>
  \<^verbatim>\<open>Object.values\<close>: the properties whose names are array indices (canonical decimal
  integers below \<open>2 ^ 32 - 1\<close>) come first, in ascending numeric order, then the others
  in creation order.
\<close>

definition is_array_index :: "string \<Rightarrow> bool" where
  "is_array_index s \<longleftrightarrow>
     s \<noteq> [] \<and> list_all is_digit s \<and> (s = ''0'' \<or> hd s \<noteq> CHR ''0'') \<and>
     digits_val s < 2 ^ 32 - 1"

definition object_values :: "(string \<times> 'a) list \<Rightarrow> 'a list" where
  "object_values props =
     map snd (sort_key (\<lambda>p. digits_val (fst p)) (filter (\<lambda>p. is_array_index (fst p)) props) @
              filter (\<lambda>p. \<not> is_array_index (fst p)) props)"

definition region_groups ::
    "(jsnum \<Rightarrow> string) \<Rightarrow> jsval \<Rightarrow> obj list \<Rightarrow> js_error + group list" where
  "region_groups nts proto_total filtered =
     (case forEach_items nts filtered \<lparr>own = [], ptotal = proto_total\<rparr> of
        Inl e \<Rightarrow> Inl e
      | Inr st \<Rightarrow> Inr (object_values (own st)))"

text \<open>
  The value of \<^verbatim>\<open>Object.prototype.total\<close> after the loop, or at the item where it
  raised (the raising update writes nothing).
\<close>

fun ptotal_after :: "(jsnum \<Rightarrow> string) \<Rightarrow> obj list \<Rightarrow> groups_state \<Rightarrow> jsval" where
  "ptotal_after nts [] st = ptotal st"
| "ptotal_after nts (item # items) st =
     (case add_item nts item st of
        Inl e \<Rightarrow> ptotal st
      | Inr st' \<Rightarrow> ptotal_after nts items st')"

definition prototype_after :: "(jsnum \<Rightarrow> string) \<Rightarrow> jsval \<Rightarrow> obj list \<Rightarrow> jsval" where
  "prototype_after nts proto_total filtered =
     ptotal_after nts filtered \<lparr>own = [], ptotal = proto_total\<rparr>"

record bar =
  name :: string
  bar_avgCharge :: jsnum

text \<open>
  The callback of \<^verbatim>\<open>map\<close>: \<^verbatim>\<open>charAt\<close> exists on strings only, so a group whose
  \<^verbatim>\<open>region\<close> is a number or \<^verbatim>\<open>undefined\<close> raises \<^verbatim>\<open>TypeError\<close>.
\<close>

definition capitalize :: "string \<Rightarrow> string" where
  "capitalize s = toUpperCase (take 1 s) @ drop 1 s"

definition bar_of_group :: "group \<Rightarrow> js_error + bar" where
  "bar_of_group g =
     (case g_region g of
        Str s \<Rightarrow> Inr \<lparr>name = capitalize s,
                      bar_avgCharge = js_div (g_total g) (Num (num_of_nat (g_count g)))\<rparr>
      | _ \<Rightarrow> Inl TypeError)"

fun map_bars :: "group list \<Rightarrow> js_error + bar list" where
  "map_bars [] = Inr []"
| "map_bars (g # gs) =
     (case bar_of_group g of
        Inl e \<Rightarrow> Inl e
      | Inr b \<Rightarrow> (case map_bars gs of Inl e \<Rightarrow> Inl e | Inr bs \<Rightarrow> Inr (b # bs)))"

definition regionData ::
    "(jsnum \<Rightarrow> string) \<Rightarrow> jsval \<Rightarrow> obj list \<Rightarrow> js_error + bar list" where
  "regionData nts proto_total filtered =
     (case region_groups nts proto_total filtered of
        Inl e \<Rightarrow> Inl e
      | Inr gs \<Rightarrow> map_bars gs)"

section \<open>Option deriver\<close>

text \<open>
  \<^verbatim>\<open>['all', ...new Set(data.map(d => d.region).filter(Boolean).sort())]\<close>

  \<^verbatim>\<open>sort()\<close> without a comparator is stable and orders by the string of each element;
  the \<^verbatim>\<open>Set\<close> keeps the first of equal values, with \<^verbatim>\<open>NaN\<close> equal to itself.
\<close>

definition array_sort :: "(jsnum \<Rightarrow> string) \<Rightarrow> jsval list \<Rightarrow> jsval list" where
  "array_sort nts vs = sort_key (to_string nts) vs"

definition new_Set :: "'a list \<Rightarrow> 'a list" where
  "new_Set vs = foldl (\<lambda>seen v. if v \<in> set seen then seen else seen @ [v]) [] vs"

definition options :: "(jsnum \<Rightarrow> string) \<Rightarrow> string \<Rightarrow> obj list \<Rightarrow> jsval list" where
  "options nts column full =
     Str ''all'' # new_Set (array_sort nts (filter truthy (map (\<lambda>d. fld d column) full)))"

definition regions :: "(jsnum \<Rightarrow> string) \<Rightarrow> obj list \<Rightarrow> jsval list" where
  "regions nts full = options nts ''region'' full"

definition smokers :: "(jsnum \<Rightarrow> string) \<Rightarrow> obj list \<Rightarrow> jsval list" where
  "smokers nts full = options nts ''smoker'' full"

definition sexes :: "(jsnum \<Rightarrow> string) \<Rightarrow> obj list \<Rightarrow> jsval list" where
  "sexes nts full = options nts ''sex'' full"

section \<open>Notions used in the statements\<close>

text \<open>\<^verbatim>\<open>x >= 0\<close> on numbers: false for \<^verbatim>\<open>NaN\<close>.\<close>

fun nonneg :: "jsnum \<Rightarrow> bool" where
  "nonneg (Fin r) = (0 \<le> r)"
| "nonneg PInf = True"
| "nonneg _ = False"

text \<open>
  The sum of a sequence of numbers in double arithmetic: the terms are added one after
  another, in sequence order, to the start value.
\<close>

primrec sum_from :: "jsnum \<Rightarrow> jsnum list \<Rightarrow> jsnum" where
  "sum_from acc [] = acc"
| "sum_from acc (c # cs) = sum_from (fadd acc c) cs"

text \<open>The example dataset of the specification: a header line and three rows.\<close>

definition example_csv :: string where
  "example_csv =
     ''age,sex,bmi,children,smoker,region,charges'' @ [CHR 0x0A] @
     ''19,female,27.9,0,yes,southwest,16884.92'' @ [CHR 0x0A] @
     ''18,male,33.77,1,no,southeast,1725.55'' @ [CHR 0x0A] @
     ''28,male,33.0,3,no,southeast,4449.46''"


text \<open>
  A value for the parameter \<open>nts\<close> in closed examples: \<^verbatim>\<open>Number::toString\<close> where it is
  plain text, that is on \<^verbatim>\<open>NaN\<close>, the infinities and the integers below \<open>10 ^ 21\<close> in
  magnitude (decimal digits, with a minus sign when negative). On the other numbers the
  text is not modelled and the empty string stands for it; no closed example converts
  such a number.
\<close>

fun decimal_digits :: "nat \<Rightarrow> string" where
  "decimal_digits n =
     (if n < 10 then [char_of (48 + n)]
      else decimal_digits (n div 10) @ [char_of (48 + n mod 10)])"

fun integer_toString :: "jsnum \<Rightarrow> string" where
  "integer_toString NaN = ''NaN''"
| "integer_toString PInf = ''Infinity''"
| "integer_toString NInf = ''-Infinity''"
| "integer_toString (Fin r) =
     (if of_int \<lfloor>r\<rfloor> = r \<and> \<bar>r\<bar> < 10 ^ 21
      then (if r < 0 then ''-'' else []) @ decimal_digits (nat \<bar>\<lfloor>r\<rfloor>\<bar>)
      else [])"


text \<open>The distinct elements of a list in the order of their first occurrence.\<close>

fun first_occurrences :: "'a list \<Rightarrow> 'a list" where
  "first_occurrences [] = []"
| "first_occurrences (x # xs) = x # first_occurrences (removeAll x xs)"

text \<open>
  A string looks numeric when the parser would turn it into a number: it is not empty
  and \<^verbatim>\<open>Number\<close> of it is not \<^verbatim>\<open>NaN\<close>.
\<close>

definition numeric_looking :: "string \<Rightarrow> bool" where
  "numeric_looking s \<longleftrightarrow> s \<noteq> [] \<and> \<not> isNaN (Str s)"

text \<open>\<^verbatim>\<open>typeof v === "number"\<close> and \<^verbatim>\<open>Number.isFinite\<close>.\<close>

fun is_number :: "jsval \<Rightarrow> bool" where
  "is_number (Num n) = True"
| "is_number _ = False"

fun is_finite :: "jsnum \<Rightarrow> bool" where
  "is_finite (Fin r) = True"
| "is_finite _ = False"

section \<open>Properties of the filter engine\<close>

lemma strict_eq_Str [simp]: "strict_eq v (Str s) \<longleftrightarrow> v = Str s"
  by (cases v) simp_all

lemma keep_item_iff:
  "keep_item f item \<longleftrightarrow>
     (\<forall>dim \<in> set [''region'', ''smoker'', ''sex''].
        fld f dim = Str ''all'' \<or> strict_eq (fld item dim) (fld f dim))"
  by (simp add: keep_item_def)

text \<open>
  Claim C2. The filtered sequence consists of exactly the rows of the input that, for each
  of the dimensions region, smoker and sex, either face the selection \<^verbatim>\<open>"all"\<close> or carry
  a value strictly equal to the selected one; the rows keep their multiplicity and their
  relative order (the result is a subsequence of the input), and the stored dataset is
  not changed by a change of the selection.
\<close>

theorem filteredData_selects:
  "filteredData d f =
     filter (\<lambda>item. \<forall>dim \<in> set [''region'', ''smoker'', ''sex''].
               fld f dim = Str ''all'' \<or> strict_eq (fld item dim) (fld f dim)) d
   \<and> (\<forall>item. item \<in> set (filteredData d f) \<longleftrightarrow>
          item \<in> set d \<and>
          (\<forall>dim \<in> set [''region'', ''smoker'', ''sex''].
             fld f dim = Str ''all'' \<or> strict_eq (fld item dim) (fld f dim)))
   \<and> subseq (filteredData d f) d
   \<and> data (handleFilterChange key v st) = data st
   \<and> filteredData (data (handleFilterChange key v st)) f = filteredData (data st) f"
proof -
  have eq: "filteredData d f =
     filter (\<lambda>item. \<forall>dim \<in> set [''region'', ''smoker'', ''sex''].
               fld f dim = Str ''all'' \<or> strict_eq (fld item dim) (fld f dim)) d"
    unfolding filteredData_def using keep_item_iff by presburger
  have mem: "\<forall>item. item \<in> set (filteredData d f) \<longleftrightarrow>
          item \<in> set d \<and>
          (\<forall>dim \<in> set [''region'', ''smoker'', ''sex''].
             fld f dim = Str ''all'' \<or> strict_eq (fld item dim) (fld f dim))"
    unfolding eq by simp
  have sub: "subseq (filteredData d f) d"
    by (simp add: filteredData_def)
  have same: "data (handleFilterChange key v st) = data st"
    by (simp add: handleFilterChange_def)
  from eq mem sub same show ?thesis by simp
qed

theorem filteredData_selects_witness:
  "filteredData
     [[''region'' \<mapsto> Str ''southwest'', ''smoker'' \<mapsto> Str ''yes'', ''sex'' \<mapsto> Str ''female''],
      [''region'' \<mapsto> Str ''southeast'', ''smoker'' \<mapsto> Str ''no'', ''sex'' \<mapsto> Str ''male''],
      [''region'' \<mapsto> Str ''southeast'', ''smoker'' \<mapsto> Str ''yes'', ''sex'' \<mapsto> Str ''male'']]
     [''region'' \<mapsto> Str ''all'', ''smoker'' \<mapsto> Str ''yes'', ''sex'' \<mapsto> Str ''all'']
   = [[''region'' \<mapsto> Str ''southwest'', ''smoker'' \<mapsto> Str ''yes'', ''sex'' \<mapsto> Str ''female''],
      [''region'' \<mapsto> Str ''southeast'', ''smoker'' \<mapsto> Str ''yes'', ''sex'' \<mapsto> Str ''male'']]"
  using filteredData_selects
    [of "[[''region'' \<mapsto> Str ''southwest'', ''smoker'' \<mapsto> Str ''yes'', ''sex'' \<mapsto> Str ''female''],
          [''region'' \<mapsto> Str ''southeast'', ''smoker'' \<mapsto> Str ''no'', ''sex'' \<mapsto> Str ''male''],
          [''region'' \<mapsto> Str ''southeast'', ''smoker'' \<mapsto> Str ''yes'', ''sex'' \<mapsto> Str ''male'']]"
        "[''region'' \<mapsto> Str ''all'', ''smoker'' \<mapsto> Str ''yes'', ''sex'' \<mapsto> Str ''all'']"]
  by (simp add: fld_def)

section \<open>Properties of loading\<close>

text \<open>
  Claim C5. When the load of the resource fails, the failure is written to the console and
  the dataset stays empty; the claim adds that the loading indicator is cleared. The
  rejection handler does not touch \<open>loading\<close>: after a failed load from the initial state
  the flag is still set (the view keeps showing the loading text), while a successful
  load clears it.
\<close>

theorem load_failure_keeps_loading:
  "data (on_settled (Rejected ''Failed to fetch'') initial_state) = []
   \<and> console (on_settled (Rejected ''Failed to fetch'') initial_state)
       = [(''Failed to load data'', ''Failed to fetch'')]
   \<and> loading (on_settled (Rejected ''Failed to fetch'') initial_state) = True
   \<and> loading (on_settled (Fulfilled '''') initial_state) = False"
  by (simp add: initial_state_def)

section \<open>Properties of binary64 rounding\<close>

lemma overflow_threshold_numeral [code]:
  "overflow_threshold = 179769313486231590772930519078902473361797697894230657273430081157732675805500963132708477322407536021120113879871393357658789768814416622492847430639474124377767893424865485276302219601246094119453082952085005768838150682342462881473913110540827237163350510684586298239947245938479716304835356329624224137216"
  by (simp add: overflow_threshold_def)

lemma pow2_powi: "pow2 e = 2 powi e"
  by (simp add: pow2_def power_int_def inverse_eq_divide power_one_over)

lemma pow2_pos [simp]: "0 < pow2 e"
  by (simp add: pow2_def)

lemma pow2_mono: "a \<le> b \<Longrightarrow> pow2 a \<le> pow2 b"
  by (simp add: pow2_powi power_int_increasing)

lemma pow2_less_cancel: "pow2 a < pow2 b \<Longrightarrow> a < b"
  using pow2_mono [of b a] by (cases "a < b") auto

lemma rne_nonneg: "0 \<le> x \<Longrightarrow> 0 \<le> rne x"
  by (auto simp: rne_def Let_def)

lemma rne_le_int:
  assumes h: "x \<le> of_int K"
  shows "rne x \<le> K"
proof -
  have f: "\<lfloor>x\<rfloor> \<le> K" using h by (simp add: floor_le_iff)
  show ?thesis
  proof (cases "x - of_int \<lfloor>x\<rfloor> < 1 / 2")
    case True
    then show ?thesis using f by (simp add: rne_def Let_def)
  next
    case False
    then have "of_int \<lfloor>x\<rfloor> < x" by linarith
    then have "of_int \<lfloor>x\<rfloor> < (of_int K :: rat)" using h by linarith
    then have "\<lfloor>x\<rfloor> < K" by simp
    then show ?thesis using f by (auto simp: rne_def Let_def)
  qed
qed

lemma ilog2_lower:
  assumes "0 < a"
  shows "pow2 (ilog2 a) \<le> a"
proof (cases "1 \<le> a")
  case True
  then have pos: "0 < \<lfloor>a\<rfloor>" by simp
  from bitlen_bounds [OF pos] have "2 ^ nat (bitlen \<lfloor>a\<rfloor> - 1) \<le> \<lfloor>a\<rfloor>" by simp
  then have "(of_int (2 ^ nat (bitlen \<lfloor>a\<rfloor> - 1)) :: rat) \<le> a"
    by (simp only: le_floor_iff)
  then have "(2 :: rat) ^ nat (bitlen \<lfloor>a\<rfloor> - 1) \<le> a"
    by simp
  moreover have "1 \<le> bitlen \<lfloor>a\<rfloor>" using pos by (simp add: bitlen_alt_def)
  ultimately show ?thesis using True by (simp add: ilog2_def pow2_def)
next
  case False
  define k where "k = bitlen \<lfloor>1 / a\<rfloor>"
  have inv: "1 < 1 / a" using False assms by simp
  then have pos: "0 < \<lfloor>1 / a\<rfloor>" by simp
  show ?thesis
  proof (cases "pow2 (1 - k) \<le> a")
    case True
    then show ?thesis using False by (simp add: ilog2_def k_def Let_def)
  next
    case nle: False
    from bitlen_bounds [OF pos] have "\<lfloor>1 / a\<rfloor> < 2 ^ nat k" by (simp add: k_def)
    then have "\<lfloor>1 / a\<rfloor> + 1 \<le> 2 ^ nat k" by simp
    then have "(of_int (\<lfloor>1 / a\<rfloor> + 1) :: rat) \<le> of_int (2 ^ nat k)"
      by (simp only: of_int_le_iff)
    then have "1 / a \<le> 2 ^ nat k"
      using floor_correct [of "1 / a"] by simp
    then have "1 \<le> a * 2 ^ nat k" using assms by (simp add: field_simps)
    then have "1 / 2 ^ nat k \<le> a" by (simp add: field_simps)
    moreover have "1 \<le> k" using pos by (simp add: k_def bitlen_alt_def)
    ultimately have "pow2 (- k) \<le> a" by (simp add: pow2_def)
    then show ?thesis using False nle by (simp add: ilog2_def k_def Let_def)
  qed
qed

lemma ilog2_upper:
  assumes "0 < a"
  shows "a < pow2 (ilog2 a + 1)"
proof (cases "1 \<le> a")
  case True
  then have pos: "0 < \<lfloor>a\<rfloor>" by simp
  from bitlen_bounds [OF pos] have "\<lfloor>a\<rfloor> < 2 ^ nat (bitlen \<lfloor>a\<rfloor>)" by simp
  then have "a < of_int (2 ^ nat (bitlen \<lfloor>a\<rfloor>))" by (simp only: floor_less_iff)
  then have "a < 2 ^ nat (bitlen \<lfloor>a\<rfloor>)" by simp
  moreover have "0 \<le> bitlen \<lfloor>a\<rfloor>" by (rule bitlen_nonneg)
  ultimately show ?thesis using True by (simp add: ilog2_def pow2_def)
next
  case False
  define k where "k = bitlen \<lfloor>1 / a\<rfloor>"
  have inv: "1 < 1 / a" using False assms by simp
  then have pos: "0 < \<lfloor>1 / a\<rfloor>" by simp
  have k1: "1 \<le> k" using pos by (simp add: k_def bitlen_alt_def)
  show ?thesis
  proof (cases "pow2 (1 - k) \<le> a")
    case True
    from bitlen_bounds [OF pos] have "2 ^ nat (k - 1) \<le> \<lfloor>1 / a\<rfloor>" by (simp add: k_def)
    then have "of_int (2 ^ nat (k - 1)) \<le> 1 / a" by (simp only: le_floor_iff)
    then have "2 ^ nat (k - 1) \<le> 1 / a" by simp
    then have "a * 2 ^ nat (k - 1) \<le> 1" using assms by (simp add: field_simps)
    then have le: "a \<le> pow2 (1 - k)"
      using k1 by (cases "k = 1") (simp_all add: pow2_def field_simps)
    have "pow2 (1 - k) < pow2 (2 - k)"
      by (simp add: pow2_powi power_int_strict_increasing)
    then have "a < pow2 (2 - k)" using le by simp
    moreover have "ilog2 a = 1 - k" using False True by (simp add: ilog2_def k_def Let_def)
    then have "ilog2 a + 1 = 2 - k" by simp
    ultimately show ?thesis by (simp only:)
  next
    case nle: False
    then have "ilog2 a = - k" using False by (simp add: ilog2_def k_def Let_def)
    then have "ilog2 a + 1 = 1 - k" by simp
    then show ?thesis using nle by simp
  qed
qed


lemma scaled_nonneg:
  assumes "0 \<le> q"
  shows "0 \<le> of_int (rne (q / pow2 e)) * pow2 e"
proof -
  have "0 \<le> q / pow2 e" using assms by (simp add: less_imp_le)
  then have "0 \<le> rne (q / pow2 e)" by (rule rne_nonneg)
  then show ?thesis by (simp add: less_imp_le)
qed

lemma fl_nonneg: "0 \<le> q \<Longrightarrow> nonneg (fl q)"
  by (simp add: fl_def Let_def scaled_nonneg)

lemma fl_le_int:
  assumes q0: "0 \<le> q" and qk: "q \<le> of_int k" and k53: "k < 2 ^ 53"
  shows "\<exists>r. fl q = Fin r \<and> 0 \<le> r \<and> r \<le> of_int k"
proof (cases "q = 0")
  case True
  then show ?thesis using qk by (simp add: fl_def)
next
  case False
  then have qpos: "0 < q" using q0 by simp
  define e where "e = max (ilog2 q - 52) (- 1074)"
  define r where "r = of_int (rne (q / pow2 e)) * pow2 e"
  have "q < 2 ^ 53"
  proof -
    have "(of_int k :: rat) < of_int (2 ^ 53)" using k53 by (simp only: of_int_less_iff)
    then show ?thesis using qk by simp
  qed
  then have "pow2 (ilog2 q) < pow2 53"
    using ilog2_lower [OF qpos] by (simp add: pow2_def)
  then have "ilog2 q < 53" by (rule pow2_less_cancel)
  then have e0: "e \<le> 0" by (simp add: e_def)
  define n where "n = nat (- e)"
  have pe: "pow2 e = 1 / 2 ^ n" using e0 by (cases "e = 0") (simp_all add: pow2_def n_def)
  have "q / pow2 e \<le> of_int (k * 2 ^ n)" using qk by (simp add: pe)
  then have "rne (q / pow2 e) \<le> k * 2 ^ n" by (rule rne_le_int)
  then have "(of_int (rne (q / pow2 e)) :: rat) \<le> of_int (k * 2 ^ n)"
    by (simp only: of_int_le_iff)
  then have rk: "r \<le> of_int k" by (simp add: r_def pe field_simps)
  have r0: "0 \<le> r" using q0 unfolding r_def by (rule scaled_nonneg)
  have "r < 2 ^ 1024"
  proof -
    have "(of_int k :: rat) < of_int (2 ^ 53)" using k53 by (simp only: of_int_less_iff)
    then have "r < 2 ^ 53" using rk by simp
    then show ?thesis by simp
  qed
  then have "fl q = Fin r"
    using qpos by (simp add: fl_def Let_def e_def r_def overflow_threshold_def)
  then show ?thesis using r0 rk by simp
qed


lemma rne_of_int [simp]: "rne (of_int K) = K"
  by (simp add: rne_def)

lemma fl_of_int:
  assumes k0: "0 \<le> k" and k53: "k < 2 ^ 53"
  shows "fl (of_int k) = Fin (of_int k)"
proof (cases "k = 0")
  case True
  then show ?thesis by (simp add: fl_def)
next
  case False
  then have qpos: "0 < (of_int k :: rat)" using k0 by simp
  define e where "e = max (ilog2 (of_int k) - 52) (- 1074)"
  have lt: "(of_int k :: rat) < 2 ^ 53"
  proof -
    have "(of_int k :: rat) < of_int (2 ^ 53)" using k53 by (simp only: of_int_less_iff)
    then show ?thesis by simp
  qed
  then have "pow2 (ilog2 (of_int k)) < pow2 53"
    using ilog2_lower [OF qpos] by (simp add: pow2_def)
  then have "ilog2 (of_int k) < 53" by (rule pow2_less_cancel)
  then have e0: "e \<le> 0" by (simp add: e_def)
  define n where "n = nat (- e)"
  have pe: "pow2 e = 1 / 2 ^ n" using e0 by (cases "e = 0") (simp_all add: pow2_def n_def)
  have "of_int k / pow2 e = (of_int (k * 2 ^ n) :: rat)" by (simp add: pe)
  then have "rne (of_int k / pow2 e) = k * 2 ^ n" by (simp only: rne_of_int)
  then have r: "of_int (rne (of_int k / pow2 e)) * pow2 e = (of_int k :: rat)"
    by (simp add: pe)
  have "(of_int k :: rat) < 2 ^ 1024" using lt by simp
  then show ?thesis
    using qpos r by (simp add: fl_def Let_def e_def [symmetric] overflow_threshold_def)
qed

section \<open>Properties of the summary statistics\<close>

lemma total_numeric:
  "\<forall>r\<in>set xs. \<exists>c. fld r ''charges'' = Num c \<Longrightarrow>
   foldl (\<lambda>sum item. js_add nts sum (fld item ''charges'')) (Num a) xs
     = Num (sum_from a (map (\<lambda>r. to_number (fld r ''charges'')) xs))"
  by (induction xs arbitrary: a) auto




lemma fadd_nonneg: "nonneg a \<Longrightarrow> nonneg b \<Longrightarrow> nonneg (fadd a b)"
  by (cases a; cases b) (simp_all add: fl_nonneg)

lemma sum_from_nonneg:
  "nonneg a \<Longrightarrow> \<forall>c\<in>set cs. nonneg c \<Longrightarrow> nonneg (sum_from a cs)"
  by (induction cs arbitrary: a) (simp_all add: fadd_nonneg)

lemma fdiv_nonneg: "nonneg a \<Longrightarrow> 0 < n \<Longrightarrow> nonneg (fdiv a (Fin n))"
  by (cases a) (simp_all add: fl_nonneg)

lemma percentage_range:
  assumes "k \<le> n" "0 < n"
  shows "\<exists>p. fmul (fdiv (num_of_nat k) (num_of_nat n)) (Fin 100) = Fin p \<and> 0 \<le> p \<and> p \<le> 100"
proof -
  have q: "0 \<le> (of_nat k :: rat) / of_nat n" "(of_nat k :: rat) / of_nat n \<le> of_int 1"
    using assms by simp_all
  from fl_le_int [OF q] obtain x where x: "fl (of_nat k / of_nat n) = Fin x" "0 \<le> x" "x \<le> 1"
    by auto
  have y: "0 \<le> x * 100" "x * 100 \<le> of_int 100" using x by simp_all
  from fl_le_int [OF y] obtain p where p: "fl (x * 100) = Fin p" "0 \<le> p" "p \<le> 100"
    by auto
  have "fmul (fdiv (num_of_nat k) (num_of_nat n)) (Fin 100) = Fin p"
    using assms x p by (simp add: num_of_nat_def)
  then show ?thesis using p by simp
qed

text \<open>
  Claim C9. For every non-empty filtered sequence the smoker percentage is a finite number
  between 0 and 100 (both included); and when the charges of every row are non-negative
  numbers, the average charge is non-negative.
\<close>

theorem stats_bounds:
  assumes "xs \<noteq> []"
  shows "(\<exists>p. smokerPct (stats nts xs) = Fin p \<and> 0 \<le> p \<and> p \<le> 100)
    \<and> ((\<forall>r\<in>set xs. \<exists>c. fld r ''charges'' = Num c \<and> nonneg c) \<longrightarrow>
         nonneg (avgCharge (stats nts xs)))"
proof
  have "length (filter (\<lambda>item. strict_eq (fld item ''smoker'') (Str ''yes'')) xs) \<le> length xs"
    by (rule length_filter_le)
  moreover have "0 < length xs" using assms by simp
  ultimately show "\<exists>p. smokerPct (stats nts xs) = Fin p \<and> 0 \<le> p \<and> p \<le> 100"
    using assms percentage_range by (simp add: stats_def Let_def)
next
  show "(\<forall>r\<in>set xs. \<exists>c. fld r ''charges'' = Num c \<and> nonneg c) \<longrightarrow>
         nonneg (avgCharge (stats nts xs))"
  proof
    assume h: "\<forall>r\<in>set xs. \<exists>c. fld r ''charges'' = Num c \<and> nonneg c"
    then have num: "\<forall>r\<in>set xs. \<exists>c. fld r ''charges'' = Num c" by blast
    have "\<forall>c\<in>set (map (\<lambda>r. to_number (fld r ''charges'')) xs). nonneg c"
      using h by auto
    then have "nonneg (sum_from (Fin 0) (map (\<lambda>r. to_number (fld r ''charges'')) xs))"
      by (intro sum_from_nonneg) simp_all
    then have "nonneg (fdiv (sum_from (Fin 0) (map (\<lambda>r. to_number (fld r ''charges'')) xs))
                 (Fin (of_nat (length xs))))"
      using assms by (intro fdiv_nonneg) simp_all
    then show "nonneg (avgCharge (stats nts xs))"
      using assms total_numeric [OF num, of nts "Fin 0"]
      by (simp add: stats_def Let_def js_div_def num_of_nat_def)
  qed
qed

theorem stats_bounds_witness:
  "[[''smoker'' \<mapsto> Str ''yes'', ''charges'' \<mapsto> Num (Fin 100)],
    [''smoker'' \<mapsto> Str ''no'', ''charges'' \<mapsto> Num PInf]] \<noteq> []
   \<and> (\<exists>p. smokerPct (stats (\<lambda>n. [])
          [[''smoker'' \<mapsto> Str ''yes'', ''charges'' \<mapsto> Num (Fin 100)],
           [''smoker'' \<mapsto> Str ''no'', ''charges'' \<mapsto> Num PInf]]) = Fin p \<and> 0 \<le> p \<and> p \<le> 100)
   \<and> nonneg (avgCharge (stats (\<lambda>n. [])
          [[''smoker'' \<mapsto> Str ''yes'', ''charges'' \<mapsto> Num (Fin 100)],
           [''smoker'' \<mapsto> Str ''no'', ''charges'' \<mapsto> Num PInf]]))"
proof -
  have ne: "[[''smoker'' \<mapsto> Str ''yes'', ''charges'' \<mapsto> Num (Fin 100)],
    [''smoker'' \<mapsto> Str ''no'', ''charges'' \<mapsto> Num PInf]] \<noteq> ([] :: obj list)"
    by simp
  have ch: "\<forall>r\<in>set [[''smoker'' \<mapsto> Str ''yes'', ''charges'' \<mapsto> Num (Fin 100)],
    [''smoker'' \<mapsto> Str ''no'', ''charges'' \<mapsto> Num PInf]].
      \<exists>c. fld r ''charges'' = Num c \<and> nonneg c"
    by (simp add: fld_def)
  from stats_bounds [OF ne, of "\<lambda>n. []"] ch ne show ?thesis by blast
qed

section \<open>Properties of the option deriver\<close>

lemma subseq_sorted: "subseq xs ys \<Longrightarrow> sorted ys \<Longrightarrow> sorted xs"
  by (auto simp: subseq_conv_nths sorted_nths)

lemma new_Set_acc:
  "\<exists>zs. foldl (\<lambda>seen v. if v \<in> set seen then seen else seen @ [v]) acc vs = acc @ zs
        \<and> subseq zs vs \<and> set zs = set vs - set acc \<and> distinct zs"
proof (induction vs arbitrary: acc)
  case Nil
  then show ?case by simp
next
  case (Cons v vs)
  show ?case
  proof (cases "v \<in> set acc")
    case True
    from Cons.IH [of acc] obtain zs where
      "foldl (\<lambda>seen v. if v \<in> set seen then seen else seen @ [v]) acc vs = acc @ zs"
      "subseq zs vs" "set zs = set vs - set acc" "distinct zs" by blast
    then show ?thesis using True by auto
  next
    case False
    from Cons.IH [of "acc @ [v]"] obtain zs where
      zs: "foldl (\<lambda>seen v. if v \<in> set seen then seen else seen @ [v]) (acc @ [v]) vs
            = (acc @ [v]) @ zs"
      "subseq zs vs" "set zs = set vs - set (acc @ [v])" "distinct zs" by blast
    have "foldl (\<lambda>seen v. if v \<in> set seen then seen else seen @ [v]) acc (v # vs) = acc @ (v # zs)"
      using zs(1) False by simp
    moreover have "subseq (v # zs) (v # vs)" using zs(2) by simp
    moreover have "set (v # zs) = set (v # vs) - set acc" using zs(3) False by auto
    moreover have "distinct (v # zs)" using zs(3,4) by auto
    ultimately show ?thesis by blast
  qed
qed

lemma new_Set_props:
  "subseq (new_Set vs) vs \<and> set (new_Set vs) = set vs \<and> distinct (new_Set vs)"
  using new_Set_acc [of "[]" vs] by (auto simp: new_Set_def)

lemma options_spec:
  "\<exists>ys. options nts col full = Str ''all'' # ys \<and> distinct ys
     \<and> set ys = {v. v \<in> (\<lambda>d. fld d col) ` set full \<and> truthy v}
     \<and> sorted (map (to_string nts) ys)"
proof -
  define vs where "vs = array_sort nts (filter truthy (map (\<lambda>d. fld d col) full))"
  have s: "sorted (map (to_string nts) vs)" by (simp add: vs_def array_sort_def)
  have "subseq (map (to_string nts) (new_Set vs)) (map (to_string nts) vs)"
    using new_Set_props [of vs] by (simp add: subseq_map)
  then have "sorted (map (to_string nts) (new_Set vs))" using s by (rule subseq_sorted)
  moreover have "set (new_Set vs) = {v. v \<in> (\<lambda>d. fld d col) ` set full \<and> truthy v}"
    using new_Set_props [of vs] by (auto simp: vs_def array_sort_def)
  moreover have "distinct (new_Set vs)" using new_Set_props [of vs] by simp
  moreover have "options nts col full = Str ''all'' # new_Set vs"
    by (simp add: options_def vs_def)
  ultimately show ?thesis by blast
qed

lemma example_regions:
  "regions nts (parse_csv example_csv) = [Str ''all'', Str ''southeast'', Str ''southwest'']"
  by code_simp

text \<open>
  Claim C6. For the full dataset, each of the three option lists (region, smoker, sex)
  starts with \<^verbatim>\<open>"all"\<close> and continues with the truthy values of its column, each once,
  in lexicographic order of their strings; on the example dataset the region options are
  \<^verbatim>\<open>["all", "southeast", "southwest"]\<close>.
\<close>

theorem option_deriver:
  "(\<exists>ys. regions nts full = Str ''all'' # ys \<and> distinct ys
       \<and> set ys = {v. v \<in> (\<lambda>d. fld d ''region'') ` set full \<and> truthy v}
       \<and> sorted (map (to_string nts) ys))
   \<and> (\<exists>ys. smokers nts full = Str ''all'' # ys \<and> distinct ys
       \<and> set ys = {v. v \<in> (\<lambda>d. fld d ''smoker'') ` set full \<and> truthy v}
       \<and> sorted (map (to_string nts) ys))
   \<and> (\<exists>ys. sexes nts full = Str ''all'' # ys \<and> distinct ys
       \<and> set ys = {v. v \<in> (\<lambda>d. fld d ''sex'') ` set full \<and> truthy v}
       \<and> sorted (map (to_string nts) ys))
   \<and> regions nts (parse_csv example_csv) = [Str ''all'', Str ''southeast'', Str ''southwest'']"
  unfolding regions_def smokers_def sexes_def
  using options_spec [of nts "''region''" full] options_spec [of nts "''smoker''" full]
    options_spec [of nts "''sex''" full] example_regions [of nts, unfolded regions_def]
  by blast

theorem option_deriver_witness:
  "regions integer_toString (parse_csv example_csv)
     = [Str ''all'', Str ''southeast'', Str ''southwest'']"
  using option_deriver [of integer_toString "[]"] by blast

section \<open>Properties of the regional grouping\<close>

lemma update_group_keys [simp]: "map fst (update_group k f gs) = map fst gs"
  by (induction gs) (auto simp: update_group_def)

lemma object_values_plain:
  assumes "\<forall>p\<in>set props. \<not> is_array_index (fst p)"
  shows "object_values props = map snd props"
proof -
  have "filter (\<lambda>p. is_array_index (fst p)) props = []" using assms by (simp add: filter_empty_conv)
  moreover have "filter (\<lambda>p. \<not> is_array_index (fst p)) props = props"
    using assms by (simp add: filter_id_conv)
  ultimately show ?thesis by (simp add: object_values_def)
qed

lemma add_item_keys:
  assumes "add_item nts item st = Inr st'"
  shows "map fst (own st') =
     (if to_string nts (fld item ''region'') \<in> set (map fst (own st))
         \<or> to_string nts (fld item ''region'') \<in> set object_prototype_keys
      then map fst (own st)
      else map fst (own st) @ [to_string nts (fld item ''region'')])"
proof (cases "map_of (own st) (to_string nts (fld item ''region''))")
  case None
  then have "to_string nts (fld item ''region'') \<notin> set (map fst (own st))"
    by (simp add: map_of_eq_None_iff)
  then show ?thesis using assms None
    by (auto simp: add_item_def Let_def object_prototype_keys_def split: if_splits)
next
  case (Some g)
  then have "to_string nts (fld item ''region'') \<in> set (map fst (own st))"
    by (metis map_of_eq_None_iff option.distinct(1) set_map)
  then show ?thesis using assms Some by (auto simp: add_item_def Let_def)
qed

lemma first_occurrences_filter_Cons:
  "P k \<Longrightarrow> first_occurrences (filter P (k # ks))
     = k # first_occurrences (filter (\<lambda>x. P x \<and> x \<noteq> k) ks)"
  by (simp add: removeAll_filter_not_eq conj_commute) (metis)

lemma forEach_items_keys:
  "forEach_items nts xs st = Inr st' \<Longrightarrow>
   map fst (own st') = map fst (own st) @
     first_occurrences
       (filter (\<lambda>k. k \<notin> set (map fst (own st)) \<and> k \<notin> set object_prototype_keys)
          (map (\<lambda>item. to_string nts (fld item ''region'')) xs))"
proof (induction xs arbitrary: st)
  case Nil
  then show ?case by simp
next
  case (Cons item items)
  from Cons.prems obtain st1 where
    a: "add_item nts item st = Inr st1" and r: "forEach_items nts items st1 = Inr st'"
    by (auto split: sum.splits)
  define k where "k = to_string nts (fld item ''region'')"
  note ih = Cons.IH [OF r]
  show ?case
  proof (cases "k \<in> set (map fst (own st)) \<or> k \<in> set object_prototype_keys")
    case True
    then have "map fst (own st1) = map fst (own st)"
      using add_item_keys [OF a] by (simp add: k_def)
    then show ?thesis using ih True by (auto simp: k_def)
  next
    case False
    then have keys: "map fst (own st1) = map fst (own st) @ [k]"
      using add_item_keys [OF a] by (simp add: k_def)
    have "filter (\<lambda>x. x \<notin> set (map fst (own st1)) \<and> x \<notin> set object_prototype_keys)
            (map (\<lambda>item. to_string nts (fld item ''region'')) items)
        = filter (\<lambda>x. (x \<notin> set (map fst (own st)) \<and> x \<notin> set object_prototype_keys) \<and> x \<noteq> k)
            (map (\<lambda>item. to_string nts (fld item ''region'')) items)"
      unfolding keys by (rule filter_cong) auto
    then show ?thesis
      using ih False keys first_occurrences_filter_Cons
        [of "\<lambda>x. x \<notin> set (map fst (own st)) \<and> x \<notin> set object_prototype_keys" k
            "map (\<lambda>item. to_string nts (fld item ''region'')) items"]
      by (simp add: k_def)
  qed
qed


lemma fl_not_NaN [simp]: "fl q \<noteq> NaN"
  by (simp add: fl_def Let_def)

lemma is_digit_code: "is_digit c \<longleftrightarrow> 48 \<le> (of_char c :: nat) \<and> (of_char c :: nat) \<le> 57"
  by (simp add: is_digit_def less_eq_char_def)

lemma digit_not_space: "is_digit c \<Longrightarrow> \<not> is_space c"
  by (auto simp: is_digit_code is_space_def)

lemma trim_digits:
  assumes "list_all is_digit s"
  shows "trim s = s"
proof (cases s)
  case Nil
  then show ?thesis by (simp add: trim_def)
next
  case (Cons c t)
  then have 1: "dropWhile is_space s = s" using assms by (simp add: digit_not_space)
  have "rev s \<noteq> []" using Cons by simp
  moreover have "list_all is_digit (rev s)" using assms by (simp add: list_all_iff)
  ultimately have "dropWhile is_space (rev s) = rev s"
    by (cases "rev s") (simp_all add: digit_not_space)
  then show ?thesis using 1 by (simp add: trim_def)
qed

lemma digits_to_number:
  assumes "s \<noteq> []" "list_all is_digit s"
  shows "string_to_number s = fl (of_int (digits_val s))"
proof -
  obtain c t where s: "s = c # t" using assms(1) by (cases s) auto
  have c: "is_digit c" using assms(2) s by simp
  have tw: "takeWhile is_digit s = s" "dropWhile is_digit s = []"
    using assms(2) by (simp_all add: list_all_iff)
  have nd: "scan_nondecimal s = None"
  proof (cases t)
    case Nil
    then show ?thesis using s by (simp add: scan_nondecimal_def)
  next
    case (Cons p ds)
    then have "is_digit p" using assms(2) s by simp
    then have "p \<noteq> CHR ''x''" "p \<noteq> CHR ''X''" "p \<noteq> CHR ''o''" "p \<noteq> CHR ''O''"
      "p \<noteq> CHR ''b''" "p \<noteq> CHR ''B''"
      by (auto simp: is_digit_code)
    then show ?thesis using s Cons by (simp add: scan_nondecimal_def)
  qed
  have sign: "c \<noteq> CHR ''+''" "c \<noteq> CHR ''-''" "c \<noteq> CHR ''I''"
    using c by (auto simp: is_digit_code)
  have "scan_unsigned s = Some (MVal (of_int (digits_val s)), [])"
    using tw sign s by (simp add: scan_unsigned_def Let_def)
  then have "scan_decimal s = Some (fl (of_int (digits_val s)), [])"
    using sign s by (simp add: scan_decimal_def Let_def)
  then show ?thesis
    using nd assms by (simp add: string_to_number_def Let_def trim_digits)
qed

lemma array_index_numeric: "is_array_index s \<Longrightarrow> numeric_looking s"
  by (simp add: is_array_index_def numeric_looking_def isNaN_def digits_to_number)

lemma first_occurrences_set [simp]: "set (first_occurrences xs) = set xs"
  by (induction xs rule: first_occurrences.induct) auto

lemma update_group_regions:
  assumes "\<forall>p\<in>set gs. g_region (snd p) = Str (fst p)"
  shows "\<forall>p\<in>set (update_group k (\<lambda>g. g\<lparr>g_total := t g, g_count := n g\<rparr>) gs).
           g_region (snd p) = Str (fst p)"
  using assms by (induction gs) (auto simp: update_group_def)

lemma add_item_regions:
  assumes "add_item nts item st = Inr st'"
    and "\<forall>p\<in>set (own st). g_region (snd p) = Str (fst p)"
    and "fld item ''region'' = Str s"
  shows "\<forall>p\<in>set (own st'). g_region (snd p) = Str (fst p)"
proof (cases "map_of (own st) s")
  case None
  then show ?thesis using assms
    by (auto simp: add_item_def Let_def split: if_splits)
next
  case (Some g)
  then have "own st' = update_group s
      (\<lambda>g. g\<lparr>g_total := js_add nts (g_total g) (fld item ''charges''),
              g_count := Suc (g_count g)\<rparr>) (own st)"
    using assms(1,3) by (auto simp: add_item_def Let_def)
  then show ?thesis using update_group_regions [OF assms(2)] by simp
qed

lemma forEach_items_regions:
  "forEach_items nts xs st = Inr st' \<Longrightarrow>
   \<forall>p\<in>set (own st). g_region (snd p) = Str (fst p) \<Longrightarrow>
   \<forall>item\<in>set xs. \<exists>s. fld item ''region'' = Str s \<Longrightarrow>
   \<forall>p\<in>set (own st'). g_region (snd p) = Str (fst p)"
proof (induction xs arbitrary: st)
  case Nil
  then show ?case by simp
next
  case (Cons item items)
  from Cons.prems(1) obtain st1 where
    a: "add_item nts item st = Inr st1" and r: "forEach_items nts items st1 = Inr st'"
    by (auto split: sum.splits)
  from Cons.prems(3) obtain s where s: "fld item ''region'' = Str s" by auto
  have "\<forall>p\<in>set (own st1). g_region (snd p) = Str (fst p)"
    using add_item_regions [OF a Cons.prems(2) s] .
  then show ?case using Cons.IH [OF r] Cons.prems(3) by simp
qed

lemma map_bars_names:
  "\<forall>p\<in>set ps. g_region (snd p) = Str (fst p) \<Longrightarrow>
   \<exists>bars. map_bars (map snd ps) = Inr bars \<and> map name bars = map (\<lambda>p. capitalize (fst p)) ps"
  by (induction ps) (auto simp: bar_of_group_def)

lemma add_item_numeric:
  assumes "fld item ''charges'' = Num c" "ptotal st = Undefined \<or> ptotal st = Num NaN"
  shows "\<exists>st'. add_item nts item st = Inr st' \<and> (ptotal st' = Undefined \<or> ptotal st' = Num NaN)"
proof -
  have "js_add nts (ptotal st) (Num c) = Num NaN"
    using assms(2) by auto
  moreover have "\<not> truthy (ptotal st)" using assms(2) by auto
  ultimately show ?thesis using assms
    by (auto simp: add_item_def Let_def split: option.splits)
qed

lemma forEach_items_numeric:
  "\<forall>item\<in>set xs. \<exists>c. fld item ''charges'' = Num c \<Longrightarrow>
   ptotal st = Undefined \<or> ptotal st = Num NaN \<Longrightarrow>
   \<exists>st'. forEach_items nts xs st = Inr st' \<and>
     (ptotal_after nts xs st = Undefined \<or> ptotal_after nts xs st = Num NaN)"
proof (induction xs arbitrary: st)
  case Nil
  then show ?case by simp
next
  case (Cons item items)
  from Cons.prems obtain c where "fld item ''charges'' = Num c" by auto
  from add_item_numeric [OF this Cons.prems(2), of nts] obtain st1 where
    "add_item nts item st = Inr st1" "ptotal st1 = Undefined \<or> ptotal st1 = Num NaN" by blast
  then show ?case using Cons.IH [of st1] Cons.prems(1) by simp
qed

text \<open>
  When the charges of the dataset are numbers, \<^verbatim>\<open>Object.prototype.total\<close> is never more
  than \<^verbatim>\<open>undefined\<close> or \<^verbatim>\<open>NaN\<close>, from one recomputation to the next.
\<close>

lemma prototype_after_numeric:
  assumes "\<forall>item\<in>set xs. \<exists>c. fld item ''charges'' = Num c"
    and "pt = Undefined \<or> pt = Num NaN"
  shows "prototype_after nts pt xs = Undefined \<or> prototype_after nts pt xs = Num NaN"
  using forEach_items_numeric [OF assms(1), of "\<lparr>own = [], ptotal = pt\<rparr>" nts] assms(2)
  by (simp add: prototype_after_def)

lemma add_item_not_total:
  assumes "to_string nts (fld item ''region'') \<noteq> ''total''"
  shows "\<exists>st'. add_item nts item st = Inr st'"
  using assms by (auto simp: add_item_def Let_def split: option.splits)

lemma forEach_items_not_total:
  "\<forall>item\<in>set xs. to_string nts (fld item ''region'') \<noteq> ''total'' \<Longrightarrow>
   \<exists>st'. forEach_items nts xs st = Inr st'"
proof (induction xs arbitrary: st)
  case Nil
  then show ?case by simp
next
  case (Cons item items)
  from Cons.prems have "to_string nts (fld item ''region'') \<noteq> ''total''" by simp
  from add_item_not_total [OF this] obtain st1 where "add_item nts item st = Inr st1"
    by blast
  then show ?case using Cons.IH [of st1] Cons.prems by simp
qed

text \<open>
  Claim C10. When the region of every row of the filtered sequence is a string that does
  not look numeric, the bars come in the order in which their regions first occur in
  the sequence (a region named like a property of \<^verbatim>\<open>Object.prototype\<close> gets no bar),
  whatever earlier runs have left in \<^verbatim>\<open>Object.prototype.total\<close>. The grouping does
  return its bars when no region is \<^verbatim>\<open>total\<close>, and also when the charges are numbers
  and \<^verbatim>\<open>Object.prototype.total\<close> is \<^verbatim>\<open>undefined\<close> or \<^verbatim>\<open>NaN\<close> at the start.
\<close>

theorem regionData_first_occurrence_order:
  assumes "\<forall>item\<in>set xs. \<exists>s. fld item ''region'' = Str s \<and> \<not> numeric_looking s"
  shows "(\<forall>bars. regionData nts pt xs = Inr bars \<longrightarrow>
            map name bars =
              map capitalize
                (first_occurrences
                   (filter (\<lambda>k. k \<notin> set object_prototype_keys)
                      (map (\<lambda>item. to_string nts (fld item ''region'')) xs))))
       \<and> ((\<forall>item\<in>set xs. fld item ''region'' \<noteq> Str ''total'') \<longrightarrow>
            (\<exists>bars. regionData nts pt xs = Inr bars))
       \<and> ((pt = Undefined \<or> pt = Num NaN) \<and>
           (\<forall>item\<in>set xs. \<exists>c. fld item ''charges'' = Num c) \<longrightarrow>
            (\<exists>bars. regionData nts pt xs = Inr bars))"
proof -
  have strs: "\<forall>item\<in>set xs. \<exists>s. fld item ''region'' = Str s" using assms by blast
  have shape: "\<exists>bars. regionData nts pt xs = Inr bars \<and>
      map name bars = map capitalize (first_occurrences
         (filter (\<lambda>k. k \<notin> set object_prototype_keys)
            (map (\<lambda>item. to_string nts (fld item ''region'')) xs)))"
    if run: "forEach_items nts xs \<lparr>own = [], ptotal = pt\<rparr> = Inr st" for st
  proof -
    have keys: "map fst (own st) = first_occurrences
         (filter (\<lambda>k. k \<notin> set object_prototype_keys)
            (map (\<lambda>item. to_string nts (fld item ''region'')) xs))"
      using forEach_items_keys [OF run] by simp
    have regs: "\<forall>p\<in>set (own st). g_region (snd p) = Str (fst p)"
      using forEach_items_regions [OF run _ strs] by simp
    have "\<not> is_array_index (fst p)" if p: "p \<in> set (own st)" for p
    proof
      assume ai: "is_array_index (fst p)"
      have "fst p \<in> set (map fst (own st))" using p by simp
      then have "fst p \<in> set (first_occurrences
         (filter (\<lambda>k. k \<notin> set object_prototype_keys)
            (map (\<lambda>item. to_string nts (fld item ''region'')) xs)))"
        using keys by simp
      then have "fst p \<in> set (map (\<lambda>item. to_string nts (fld item ''region'')) xs)"
        by auto
      then obtain item where "item \<in> set xs" "fst p = to_string nts (fld item ''region'')"
        by auto
      then have "\<not> numeric_looking (fst p)" using assms by auto
      then show False using array_index_numeric [OF ai] by simp
    qed
    then have "object_values (own st) = map snd (own st)"
      by (intro object_values_plain) simp
    moreover from map_bars_names [OF regs] obtain bars where
      "map_bars (map snd (own st)) = Inr bars" "map name bars = map (\<lambda>p. capitalize (fst p)) (own st)"
      by blast
    ultimately have "regionData nts pt xs = Inr bars \<and> map name bars = map capitalize (map fst (own st))"
      using run by (simp add: regionData_def region_groups_def)
    then show ?thesis using keys by auto
  qed
  have "regionData nts pt xs = Inr bars \<longrightarrow> map name bars = map capitalize (first_occurrences
         (filter (\<lambda>k. k \<notin> set object_prototype_keys)
            (map (\<lambda>item. to_string nts (fld item ''region'')) xs)))" for bars
  proof
    assume rd: "regionData nts pt xs = Inr bars"
    then obtain st where "forEach_items nts xs \<lparr>own = [], ptotal = pt\<rparr> = Inr st"
      by (auto simp: regionData_def region_groups_def split: sum.splits)
    from shape [OF this] rd show "map name bars = map capitalize (first_occurrences
         (filter (\<lambda>k. k \<notin> set object_prototype_keys)
            (map (\<lambda>item. to_string nts (fld item ''region'')) xs)))" by auto
  qed
  moreover have "\<exists>bars. regionData nts pt xs = Inr bars"
    if "\<forall>item\<in>set xs. fld item ''region'' \<noteq> Str ''total''"
  proof -
    have "\<forall>item\<in>set xs. to_string nts (fld item ''region'') \<noteq> ''total''"
    proof
      fix item assume i: "item \<in> set xs"
      then obtain s where "fld item ''region'' = Str s" using strs by blast
      then show "to_string nts (fld item ''region'') \<noteq> ''total''" using that i by auto
    qed
    from forEach_items_not_total [OF this, of "\<lparr>own = [], ptotal = pt\<rparr>"]
    obtain st where "forEach_items nts xs \<lparr>own = [], ptotal = pt\<rparr> = Inr st" by auto
    from shape [OF this] show ?thesis by blast
  qed
  moreover have "\<exists>bars. regionData nts pt xs = Inr bars"
    if "pt = Undefined \<or> pt = Num NaN" "\<forall>item\<in>set xs. \<exists>c. fld item ''charges'' = Num c"
  proof -
    from forEach_items_numeric [OF that(2), of "\<lparr>own = [], ptotal = pt\<rparr>" nts] that(1)
    obtain st where "forEach_items nts xs \<lparr>own = [], ptotal = pt\<rparr> = Inr st" by auto
    from shape [OF this] show ?thesis by blast
  qed
  ultimately show ?thesis by blast
qed

theorem regionData_first_occurrence_order_witness:
  "\<exists>bars. regionData integer_toString Undefined
      [[''region'' \<mapsto> Str ''southwest'', ''charges'' \<mapsto> Num (Fin 3)],
       [''region'' \<mapsto> Str ''southeast'', ''charges'' \<mapsto> Num (Fin 1)],
       [''region'' \<mapsto> Str ''southwest'', ''charges'' \<mapsto> Num (Fin 2)]] = Inr bars
     \<and> map name bars = [''Southwest'', ''Southeast'']"
proof -
  have n: "\<not> numeric_looking ''southwest''" "\<not> numeric_looking ''southeast''"
    by code_simp+
  have h: "\<forall>item\<in>set [[''region'' \<mapsto> Str ''southwest'', ''charges'' \<mapsto> Num (Fin 3)],
       [''region'' \<mapsto> Str ''southeast'', ''charges'' \<mapsto> Num (Fin 1)],
       [''region'' \<mapsto> Str ''southwest'', ''charges'' \<mapsto> Num (Fin 2)]].
         \<exists>s. fld item ''region'' = Str s \<and> \<not> numeric_looking s"
    using n by (simp add: fld_def)
  have c: "\<forall>item\<in>set [[''region'' \<mapsto> Str ''southwest'', ''charges'' \<mapsto> Num (Fin 3)],
       [''region'' \<mapsto> Str ''southeast'', ''charges'' \<mapsto> Num (Fin 1)],
       [''region'' \<mapsto> Str ''southwest'', ''charges'' \<mapsto> Num (Fin 2)]].
         \<exists>c. fld item ''charges'' = Num c"
    by (simp add: fld_def)
  have e: "map capitalize (first_occurrences
         (filter (\<lambda>k. k \<notin> set object_prototype_keys)
            (map (\<lambda>item. to_string integer_toString (fld item ''region''))
      [[''region'' \<mapsto> Str ''southwest'', ''charges'' \<mapsto> Num (Fin 3)],
       [''region'' \<mapsto> Str ''southeast'', ''charges'' \<mapsto> Num (Fin 1)],
       [''region'' \<mapsto> Str ''southwest'', ''charges'' \<mapsto> Num (Fin 2)]])))
     = [''Southwest'', ''Southeast'']"
    by code_simp
  from regionData_first_occurrence_order [OF h, of integer_toString Undefined] c e
  show ?thesis by metis
qed

text \<open>
  Claim C3. The claim wants one bar for each region value of the filtered sequence, named
  by the capitalised region. A region named like a property that every object inherits
  is never entered into \<^verbatim>\<open>groups\<close>: a single row of region \<^verbatim>\<open>constructor\<close> yields no
  bar at all, whatever \<^verbatim>\<open>Object.prototype.total\<close> holds at the start.
\<close>

theorem regionData_inherited_name_no_bar:
  "regionData nts pt [[''region'' \<mapsto> Str ''constructor'', ''charges'' \<mapsto> Num (Fin 100)]] = Inr []
   \<and> regionData nts pt
        (filteredData (parse_csv (''region,charges'' @ [CHR 0x0A] @ ''constructor,100''))
           (filters initial_state)) = Inr []
   \<and> count (stats nts
        (filteredData (parse_csv (''region,charges'' @ [CHR 0x0A] @ ''constructor,100''))
           (filters initial_state))) = Fin 1"
  by code_simp

text \<open>
  Claim C8. The claim wants the group sizes to add up to the length of the filtered
  sequence. Of three rows, the one of region \<^verbatim>\<open>toString\<close> is counted in no group: the
  only group has size 2, whatever \<^verbatim>\<open>Object.prototype.total\<close> holds at the start.
\<close>

theorem region_groups_lose_rows:
  "region_groups nts pt
     [[''region'' \<mapsto> Str ''southwest'', ''charges'' \<mapsto> Num (Fin 100)],
      [''region'' \<mapsto> Str ''toString'', ''charges'' \<mapsto> Num (Fin 50)],
      [''region'' \<mapsto> Str ''southwest'', ''charges'' \<mapsto> Num (Fin 25)]]
   = Inr [\<lparr>g_region = Str ''southwest'', g_total = Num (Fin 125), g_count = 2\<rparr>]"
  by code_simp

section \<open>Properties of the parser\<close>

lemma dropWhile_id: "xs = [] \<or> \<not> P (hd xs) \<Longrightarrow> dropWhile P xs = xs"
  by (cases xs) auto

lemma trim_ends:
  assumes "trim s \<noteq> []"
  shows "\<not> is_space (hd (trim s))" and "\<not> is_space (last (trim s))"
proof -
  define d where "d = dropWhile is_space s"
  define t where "t = dropWhile is_space (rev d)"
  have ts: "trim s = rev t" by (simp add: trim_def d_def t_def)
  have tne: "t \<noteq> []" using assms ts by simp
  then have "\<not> is_space (hd t)" unfolding t_def by (rule hd_dropWhile)
  then show "\<not> is_space (last (trim s))" using tne by (simp add: ts last_rev)
  have "rev d = takeWhile is_space (rev d) @ t" by (simp add: t_def)
  then have "rev (rev d) = rev (takeWhile is_space (rev d) @ t)" by simp
  then have dd: "d = rev t @ rev (takeWhile is_space (rev d))" by simp
  then have "d \<noteq> []" using tne by auto
  then have "\<not> is_space (hd d)" unfolding d_def by (rule hd_dropWhile)
  moreover have "hd d = hd (rev t)" using dd tne by (metis hd_append2 rev_is_Nil_conv)
  ultimately show "\<not> is_space (hd (trim s))" by (simp add: ts)
qed

lemma trimStart_trim [simp]: "trimStart (trim s) = trim s"
  unfolding trimStart_def using trim_ends(1) [of s] by (intro dropWhile_id) auto

lemma trim_trim [simp]: "trim (trim s) = trim s"
proof (cases "trim s = []")
  case True
  have "trim [] = []" by (simp add: trim_def)
  then show ?thesis using True by simp
next
  case False
  have 1: "dropWhile is_space (trim s) = trim s"
    using trim_ends(1) [OF False] by (intro dropWhile_id) simp
  have "dropWhile is_space (rev (trim s)) = rev (trim s)"
    using trim_ends(2) [OF False] False by (intro dropWhile_id) (simp add: hd_rev)
  then show ?thesis using 1 by (simp add: trim_def [of "trim s"])
qed

text \<open>
  Claim C4, as amended. The parser stores a cell as a number exactly when its trimmed text
  is not empty and \<^verbatim>\<open>Number\<close> of it is not \<^verbatim>\<open>NaN\<close>; this includes every text that
  reads as a finite number, and also \<^verbatim>\<open>Infinity\<close> and decimal literals beyond the range
  of the doubles. Unless the text is a hexadecimal, octal or binary literal, the number
  stored is \<^verbatim>\<open>Number\<close> of the trimmed text. Any other trimmed text is stored unchanged,
  as a string.
\<close>

theorem coerce_cell:
  "(is_number (coerce (Some c)) \<longleftrightarrow> trim c \<noteq> [] \<and> string_to_number (trim c) \<noteq> NaN)
   \<and> (\<not> is_number (coerce (Some c)) \<longrightarrow> coerce (Some c) = Str (trim c))
   \<and> (is_number (coerce (Some c)) \<and> scan_nondecimal (trim c) = None \<longrightarrow>
        coerce (Some c) = Num (string_to_number (trim c)))
   \<and> (trim c \<noteq> [] \<and> is_finite (string_to_number (trim c)) \<longrightarrow> is_number (coerce (Some c)))"
proof -
  have 1: "is_number (coerce (Some c)) \<longleftrightarrow> trim c \<noteq> [] \<and> string_to_number (trim c) \<noteq> NaN"
    by (simp add: coerce_def Let_def isNaN_def)
  have 2: "\<not> is_number (coerce (Some c)) \<longrightarrow> coerce (Some c) = Str (trim c)"
    by (simp add: coerce_def Let_def)
  have 3: "coerce (Some c) = Num (string_to_number (trim c))"
    if "is_number (coerce (Some c))" "scan_nondecimal (trim c) = None"
  proof -
    from that(1) have ne: "trim c \<noteq> []" and nn: "string_to_number (trim c) \<noteq> NaN"
      using 1 by simp_all
    from nn that(2) ne obtain v where
      "scan_decimal (trim c) = Some (v, [])" "string_to_number (trim c) = v"
      by (auto simp: string_to_number_def Let_def split: option.splits if_splits)
    then show ?thesis using ne nn
      by (simp add: coerce_def Let_def isNaN_def parseFloat_def)
  qed
  have 4: "trim c \<noteq> [] \<and> is_finite (string_to_number (trim c)) \<longrightarrow> is_number (coerce (Some c))"
    using 1 by auto
  from 1 2 3 4 show ?thesis by blast
qed

theorem coerce_cell_witness:
  "coerce (Some '' 12.5 '') = Num (Fin (25 / 2)) \<and> coerce (Some '' n/a'') = Str ''n/a''
   \<and> coerce (Some ''Infinity'') = Num PInf"
proof -
  have a: "trim '' 12.5 '' \<noteq> []" "string_to_number (trim '' 12.5 '') = Fin (25 / 2)"
    "scan_nondecimal (trim '' 12.5 '') = None"
    by code_simp+
  have b: "string_to_number (trim '' n/a'') = NaN" "trim '' n/a'' = ''n/a''"
    by code_simp+
  have c: "trim ''Infinity'' \<noteq> []" "string_to_number (trim ''Infinity'') = PInf"
    "scan_nondecimal (trim ''Infinity'') = None"
    by code_simp+
  from coerce_cell [of "'' 12.5 ''"] a have 1: "coerce (Some '' 12.5 '') = Num (Fin (25 / 2))"
    by simp
  from coerce_cell [of "'' n/a''"] b have 2: "coerce (Some '' n/a'') = Str ''n/a''"
    by simp
  from coerce_cell [of "''Infinity''"] c have 3: "coerce (Some ''Infinity'') = Num PInf"
    by simp
  from 1 2 3 show ?thesis by simp
qed

text \<open>
  Claim C4 as stated fails: the cell \<^verbatim>\<open>Infinity\<close> is stored as a number although its text
  does not read as a finite number.
\<close>

theorem coerce_Infinity:
  "\<not> (is_number (coerce (Some ''Infinity'')) \<longleftrightarrow>
        trim ''Infinity'' \<noteq> [] \<and> is_finite (string_to_number (trim ''Infinity'')))"
  by code_simp

section \<open>The example scenario\<close>

lemma example_length: "length (parse_csv example_csv) = 3"
  by code_simp

lemma example_stats:
  "stats nts (filteredData (parse_csv example_csv) (filters initial_state)) =
     \<lparr>count = Fin 3,
      avgCharge = fdiv (fadd (fadd (fl (1688492 / 100)) (fl (172555 / 100))) (fl (444946 / 100))) (Fin 3),
      smokerPct = fmul (fdiv (Fin 1) (Fin 3)) (Fin 100)\<rparr>"
  by code_simp

lemma example_percentage: "fmul (fdiv (Fin 1) (Fin 3)) (Fin 100) = Fin (4691249611844266 / 2 ^ 47)"
  by code_simp

lemma example_bars:
  "regionData nts pt (filteredData (parse_csv example_csv) (filters initial_state)) =
     Inr [\<lparr>name = ''Southwest'', bar_avgCharge = fl (1688492 / 100)\<rparr>,
          \<lparr>name = ''Southeast'',
           bar_avgCharge = fdiv (fadd (fl (172555 / 100)) (fl (444946 / 100))) (Fin 2)\<rparr>]"
  by code_simp

text \<open>
  Claim C7, as amended. Parsing the example text yields 3 rows. With the initial selection
  (\<^verbatim>\<open>"all"\<close> three times) the count is 3, the average charge is
  \<^verbatim>\<open>(16884.92 + 1725.55 + 4449.46) / 3\<close> and the smoker percentage is \<^verbatim>\<open>(1 / 3) * 100\<close>,
  all in double arithmetic; that percentage is the double \<open>4691249611844266 / 2 ^ 47\<close>
  (printed \<^verbatim>\<open>33.33333333333333\<close>). The bars are Southwest with \<^verbatim>\<open>16884.92\<close> and
  Southeast with \<^verbatim>\<open>(1725.55 + 4449.46) / 2\<close>.
\<close>

theorem example_scenario:
  "length (parse_csv example_csv) = 3
   \<and> stats nts (filteredData (parse_csv example_csv) (filters initial_state)) =
       \<lparr>count = Fin 3,
        avgCharge = fdiv (fadd (fadd (fl (1688492 / 100)) (fl (172555 / 100))) (fl (444946 / 100))) (Fin 3),
        smokerPct = fmul (fdiv (Fin 1) (Fin 3)) (Fin 100)\<rparr>
   \<and> fmul (fdiv (Fin 1) (Fin 3)) (Fin 100) = Fin (4691249611844266 / 2 ^ 47)
   \<and> regionData nts pt (filteredData (parse_csv example_csv) (filters initial_state)) =
       Inr [\<lparr>name = ''Southwest'', bar_avgCharge = fl (1688492 / 100)\<rparr>,
            \<lparr>name = ''Southeast'',
             bar_avgCharge = fdiv (fadd (fl (172555 / 100)) (fl (444946 / 100))) (Fin 2)\<rparr>]"
  using example_length example_stats example_percentage example_bars by blast

text \<open>
  Claim C7 as stated fails in one place: the smoker percentage is not \<open>100 / 3\<close>, neither
  the quotient of the doubles 100 and 3 (which is \<open>4691249611844267 / 2 ^ 47\<close>, printed
  \<^verbatim>\<open>33.333333333333336\<close>) nor the rational number.
\<close>

theorem example_percentage_not_100_3:
  "smokerPct (stats integer_toString (filteredData (parse_csv example_csv) (filters initial_state)))
     \<noteq> fdiv (Fin 100) (Fin 3)
   \<and> smokerPct (stats integer_toString (filteredData (parse_csv example_csv) (filters initial_state)))
     \<noteq> Fin (100 / 3)
   \<and> fdiv (Fin 100) (Fin 3) = Fin (4691249611844267 / 2 ^ 47)"
  by code_simp

end
